theory Spec2Isabelle
  imports Main "HOL-Library.Multiset" "HOL-Library.Sublist" "HOL-Library.List_Lexorder"
    "HOL-Library.Char_ord"
begin

section \<open>The messages service of the Flowdock client (messages.go)\<close>

text \<open>
  The development follows \<^verbatim>\<open>flowdock/messages.go\<close>. Go strings are byte strings
  (\<^typ>\<open>string\<close>), a pointer field that may be nil is an \<^typ>\<open>'a option\<close>, and
  a Go \<^verbatim>\<open>error\<close> value is identified with the text its \<^verbatim>\<open>Error()\<close> method
  returns. Collaborators that live outside \<^verbatim>\<open>messages.go\<close> (the HTTP client,
  \<^verbatim>\<open>encoding/json\<close>, the event source) are parameters of the functions that call them.
\<close>

subsection \<open>Data model\<close>

type_synonym error = string

text \<open>
  Modelled from the spec: the type \<^verbatim>\<open>Time\<close> of the field \<^verbatim>\<open>Sent\<close> is declared
  outside \<^verbatim>\<open>messages.go\<close>; the spec describes it as a numeric epoch-millisecond
  timestamp.
\<close>

type_synonym Time = int

text \<open>The option bundles, with the key of each field's \<^verbatim>\<open>url\<close> struct tag in the comment.\<close>

record MessagesListOptions =
  Event :: string             \<comment> \<open>\<^verbatim>\<open>url:"event,omitempty"\<close>\<close>
  Limit :: int                \<comment> \<open>\<^verbatim>\<open>url:"limit,omitempty"\<close>\<close>
  SinceID :: int              \<comment> \<open>\<^verbatim>\<open>url:"since_id,omitempty"\<close>\<close>
  UntilID :: int              \<comment> \<open>\<^verbatim>\<open>url:"until_id,omitempty"\<close>\<close>
  Tags :: "string list"       \<comment> \<open>\<^verbatim>\<open>url:"tags,comma,omitempty"\<close>\<close>
  TagMode :: string           \<comment> \<open>\<^verbatim>\<open>url:"tag_mode,omitempty"\<close>\<close>
  Search :: string            \<comment> \<open>\<^verbatim>\<open>url:"search,omitempty"\<close>\<close>

record MessagesEditOptions =
  Content :: string           \<comment> \<open>\<^verbatim>\<open>url:"content,omitempty"\<close>\<close>
  Tags :: "string list"       \<comment> \<open>\<^verbatim>\<open>url:"tags,comma,omitempty"\<close>\<close>

record MessagesCreateOptions =
  FlowID :: string            \<comment> \<open>\<^verbatim>\<open>url:"flow,omitempty"\<close>\<close>
  MessageID :: int            \<comment> \<open>\<^verbatim>\<open>url:"message,omitempty"\<close>\<close>
  Event :: string             \<comment> \<open>\<^verbatim>\<open>url:"event,omitempty"\<close>\<close>
  Content :: string           \<comment> \<open>\<^verbatim>\<open>url:"content,omitempty"\<close>\<close>
  Tags :: "string list"       \<comment> \<open>\<^verbatim>\<open>url:"tags,comma,omitempty"\<close>\<close>
  UUID :: string              \<comment> \<open>\<^verbatim>\<open>url:"uuid,omitempty"\<close>\<close>
  ExternalUserName :: string  \<comment> \<open>\<^verbatim>\<open>url:"external_user_name,omitempty"\<close>\<close>
  Subject :: string           \<comment> \<open>\<^verbatim>\<open>url:"subject,omitempty"\<close>\<close>
  FromAddress :: string       \<comment> \<open>\<^verbatim>\<open>url:"from_address,omitempty"\<close>\<close>
  Source :: string            \<comment> \<open>\<^verbatim>\<open>url:"source,omitempty"\<close>\<close>

text \<open>
  A chat message. Every field is a pointer in the source, so that an absent field
  (\<^const>\<open>None\<close>) differs from a present one holding the zero value.
\<close>

record Message =
  ID :: "int option"
  FlowID :: "string option"
  Sent :: "Time option"
  UserID :: "string option"
  Event :: "string option"
  RawContent :: "string option"
  MessageID :: "int option"
  Tags :: "string list option"
  UUID :: "string option"
  ExternalUserName :: "string option"
  App :: "string option"

text \<open>The value \<^verbatim>\<open>new(Message)\<close> allocates: every pointer nil.\<close>

definition new_Message :: Message where
  "new_Message = \<lparr>ID = None, FlowID = None, Sent = None, UserID = None, Event = None,
     RawContent = None, MessageID = None, Tags = None, UUID = None,
     ExternalUserName = None, App = None\<rparr>"

subsection \<open>Formatting\<close>

text \<open>
  \<^verbatim>\<open>fmt.Sprintf\<close> prints a string argument of \<^verbatim>\<open>%v\<close> or \<^verbatim>\<open>%s\<close> as it is, an
  error argument of \<^verbatim>\<open>%v\<close> by its text, and an \<^verbatim>\<open>int\<close> argument of \<^verbatim>\<open>%d\<close> in
  decimal, with a minus sign when it is negative.
\<close>

definition digit :: "nat \<Rightarrow> char" where
  "digit d = ''0123456789'' ! d"

fun decimal :: "nat \<Rightarrow> string" where
  "decimal n = (if n < 10 then [digit n] else decimal (n div 10) @ [digit (n mod 10)])"

definition fmt_d :: "int \<Rightarrow> string" where
  "fmt_d i = (if i < 0 then CHR ''-'' # decimal (nat (- i)) else decimal (nat i))"

subsection \<open>Content of a message\<close>

text \<open>
  The four content types are declared outside \<^verbatim>\<open>messages.go\<close>; they are the type
  parameters \<open>'m\<close>, \<open>'c\<close>, \<open>'v\<close> and \<open>'j\<close>. A value of the interface \<^verbatim>\<open>Content\<close> that
  is not nil holds one of them.
\<close>

datatype ('m, 'c, 'v, 'j) Content =
  MessageContent 'm | CommentContent 'c | VcsContent 'v | JsonContent 'j

text \<open>The dynamic type the \<^verbatim>\<open>switch\<close> gives to \<^verbatim>\<open>content\<close>; the value is freshly allocated.\<close>

datatype variant = new_MessageContent | new_CommentContent | new_VcsContent | new_JsonContent

text \<open>
  \<^verbatim>\<open>json.Unmarshal\<close> decoding a document into a fresh value of each content type: it
  returns an error (\<^const>\<open>Inl\<close>), or fills the value (\<open>Inr (Some v)\<close>), or, for the document
  \<^verbatim>\<open>null\<close>, leaves no value behind and stores nil in the interface it was given
  (\<open>Inr None\<close>).
\<close>

record ('m, 'c, 'v, 'j) json_content =
  unmarshal_MessageContent :: "string \<Rightarrow> error + 'm option"
  unmarshal_CommentContent :: "string \<Rightarrow> error + 'c option"
  unmarshal_VcsContent :: "string \<Rightarrow> error + 'v option"
  unmarshal_JsonContent :: "string \<Rightarrow> error + 'j option"

datatype 'a outcome = Returns 'a | Panics string

definition nil_dereference :: string where
  "nil_dereference = ''runtime error: invalid memory address or nil pointer dereference''"

definition switch_Event :: "string \<Rightarrow> variant" where
  "switch_Event e =
     (if e = ''message'' then new_MessageContent
      else if e = ''comment'' then new_CommentContent
      else if e = ''vcs'' then new_VcsContent
      else new_JsonContent)"

fun json_Unmarshal_content ::
  "('m, 'c, 'v, 'j) json_content \<Rightarrow> string \<Rightarrow> variant \<Rightarrow> error + ('m, 'c, 'v, 'j) Content option"
where
  "json_Unmarshal_content J raw new_MessageContent =
     map_sum id (map_option MessageContent) (unmarshal_MessageContent J raw)"
| "json_Unmarshal_content J raw new_CommentContent =
     map_sum id (map_option CommentContent) (unmarshal_CommentContent J raw)"
| "json_Unmarshal_content J raw new_VcsContent =
     map_sum id (map_option VcsContent) (unmarshal_VcsContent J raw)"
| "json_Unmarshal_content J raw new_JsonContent =
     map_sum id (map_option JsonContent) (unmarshal_JsonContent J raw)"

text \<open>
  \<^verbatim>\<open>func (m *Message) Content() (content Content)\<close>. The method has one result and no
  error result: it returns the interface value (\<^const>\<open>None\<close> when it is nil) or panics.
  \<^verbatim>\<open>*m.Event\<close> is evaluated first, \<^verbatim>\<open>*m.RawContent\<close> after the \<^verbatim>\<open>switch\<close>.
\<close>

definition Content ::
  "('m, 'c, 'v, 'j) json_content \<Rightarrow> Message \<Rightarrow> ('m, 'c, 'v, 'j) Content option outcome"
where
  "Content J m =
     (case Message.Event m of
        None \<Rightarrow> Panics nil_dereference
      | Some e \<Rightarrow>
          let content = switch_Event e in
          (case RawContent m of
             None \<Rightarrow> Panics nil_dereference
           | Some raw \<Rightarrow>
               (case json_Unmarshal_content J raw content of
                  Inl err \<Rightarrow> Panics err
                | Inr content' \<Rightarrow> Returns content')))"

subsection \<open>The stream\<close>

text \<open>
  The handle \<^verbatim>\<open>eventsource.New(req, retry)\<close> returns, as the request and the retry
  interval it was made from. A \<^verbatim>\<open>time.Duration\<close> counts nanoseconds.
\<close>

record 'req EventSource =
  request :: 'req
  retry :: int

definition Second :: int where
  "Second = 1000000000"

text \<open>What the calls of a function do besides returning, in the order they happen.\<close>

datatype 'req call =
  addOptions_call string
| NewRequest_call string string
| NewStreamRequest_call string string
| Do_call 'req
| eventsource_New_call 'req int
| go_call

text \<open>
  \<^verbatim>\<open>func (s *MessagesService) Stream(token, org, flow string)\<close>, up to the
  \<^verbatim>\<open>go\<close> statement. The result is the error, or the handle of the new event source
  together with the new channel, which the background task alone writes to.
\<close>

definition Stream ::
  "(string \<Rightarrow> string \<Rightarrow> error + 'req) \<Rightarrow> string \<Rightarrow> string \<Rightarrow> string
     \<Rightarrow> (error + 'req EventSource) \<times> 'req call list"
where
  "Stream NewStreamRequest token org flow =
     (let retryDuration = 3 * Second;
          u = ''flows/'' @ org @ ''/'' @ flow @ ''?access_token='' @ token
      in case NewStreamRequest ''GET'' u of
           Inl err \<Rightarrow> (Inl err, [NewStreamRequest_call ''GET'' u])
         | Inr req \<Rightarrow>
             (Inr \<lparr>request = req, retry = retryDuration\<rparr>,
              [NewStreamRequest_call ''GET'' u, eventsource_New_call req retryDuration, go_call]))"

text \<open>
  The background task. \<^verbatim>\<open>es.Read()\<close> returns an event or an error; the list holds what
  its successive calls return. The task's actions are the sends on \<^verbatim>\<open>messageCh\<close>
  (each one completes when the consumer receives), the lines it logs and the deferred
  \<^verbatim>\<open>es.Close()\<close>. The source has no \<^verbatim>\<open>close(messageCh)\<close>; the action
  \<open>close_messageCh\<close> is there to say so.
\<close>

datatype read = Event_read string | error_read error

datatype action = Send Message | Log string | es_Close | close_messageCh

datatype status = Returned | In_Read

fun stream_task :: "(string \<Rightarrow> Message \<Rightarrow> error + Message) \<Rightarrow> read list \<Rightarrow> action list \<times> status" where
  "stream_task json_Unmarshal [] = ([], In_Read)"
| "stream_task json_Unmarshal (error_read err # rest) =
     ([Log (''failed to read Stream eventsource: '' @ err), es_Close], Returned)"
| "stream_task json_Unmarshal (Event_read data # rest) =
     (case json_Unmarshal data new_Message of
        Inl err \<Rightarrow> ([Log (''bad JSON data from Stream eventsource: '' @ err), es_Close], Returned)
      | Inr m \<Rightarrow>
          (let (actions, st) = stream_task json_Unmarshal rest in (Send m # actions, st)))"

text \<open>
  What the loop's \<^verbatim>\<open>json.Unmarshal([]byte(event.Data), m)\<close> returns for each of a list
  of frames, every one decoded into a fresh \<^verbatim>\<open>new(Message)\<close>.
\<close>

definition unmarshal_frames ::
  "(string \<Rightarrow> Message \<Rightarrow> error + Message) \<Rightarrow> string list \<Rightarrow> (error + Message) list" where
  "unmarshal_frames json_Unmarshal frames = map (\<lambda>data. json_Unmarshal data new_Message) frames"

text \<open>The messages a list of actions sends, in order.\<close>

definition sent :: "action list \<Rightarrow> Message list" where
  "sent actions = concat (map (\<lambda>a. case a of Send m \<Rightarrow> [m] | _ \<Rightarrow> []) actions)"

subsection \<open>The request builders\<close>

text \<open>
  \<^verbatim>\<open>addOptions\<close>, \<^verbatim>\<open>NewRequest\<close> and \<^verbatim>\<open>Do\<close> are declared outside \<^verbatim>\<open>messages.go\<close>
  and are parameters here. \<^verbatim>\<open>addOptions(u, opt)\<close> returns a string and an error;
  \<^verbatim>\<open>NewRequest(method, u, nil)\<close> returns a request or an error; \<^verbatim>\<open>Do(req, v)\<close> returns
  a response (possibly nil), an error (possibly nil) and leaves the decoded body in \<open>v\<close>.
  Each builder returns its Go results together with the calls it made.
\<close>

definition List ::
  "(string \<Rightarrow> 'opt \<Rightarrow> string \<times> error option) \<Rightarrow> (string \<Rightarrow> string \<Rightarrow> error + 'req)
     \<Rightarrow> ('req \<Rightarrow> Message list \<Rightarrow> 'resp option \<times> error option \<times> Message list)
     \<Rightarrow> string \<Rightarrow> string \<Rightarrow> 'opt
     \<Rightarrow> (Message list \<times> 'resp option \<times> error option) \<times> 'req call list"
where
  "List addOptions NewRequest Do org flow opt =
     (let u = ''flows/'' @ org @ ''/'' @ flow @ ''/messages'' in
      case addOptions u opt of
        (u', Some err) \<Rightarrow> (([], None, Some err), [addOptions_call u])
      | (u', None) \<Rightarrow>
          (case NewRequest ''GET'' u' of
             Inl err \<Rightarrow> (([], None, Some err), [addOptions_call u, NewRequest_call ''GET'' u'])
           | Inr req \<Rightarrow>
               (case Do req [] of
                  (resp, Some err, messages) \<Rightarrow>
                    (([], resp, Some err),
                     [addOptions_call u, NewRequest_call ''GET'' u', Do_call req])
                | (resp, None, messages) \<Rightarrow>
                    ((messages, resp, None),
                     [addOptions_call u, NewRequest_call ''GET'' u', Do_call req]))))"

definition Get ::
  "(string \<Rightarrow> string \<Rightarrow> error + 'req)
     \<Rightarrow> ('req \<Rightarrow> Message \<Rightarrow> 'resp option \<times> error option \<times> Message)
     \<Rightarrow> string \<Rightarrow> string \<Rightarrow> int
     \<Rightarrow> (Message option \<times> 'resp option \<times> error option) \<times> 'req call list"
where
  "Get NewRequest Do org flowName id' =
     (let u = ''flows/'' @ org @ ''/'' @ flowName @ ''/messages/'' @ fmt_d id' in
      case NewRequest ''GET'' u of
        Inl err \<Rightarrow> ((None, None, Some err), [NewRequest_call ''GET'' u])
      | Inr req \<Rightarrow>
          (case Do req new_Message of
             (resp, Some err, message) \<Rightarrow>
               ((None, resp, Some err), [NewRequest_call ''GET'' u, Do_call req])
           | (resp, None, message) \<Rightarrow>
               ((Some message, resp, None), [NewRequest_call ''GET'' u, Do_call req])))"

text \<open>\<^verbatim>\<open>Edit\<close> and \<^verbatim>\<open>Delete\<close> call \<^verbatim>\<open>Do(req, nil)\<close>: no body is decoded.\<close>

definition Edit ::
  "(string \<Rightarrow> 'opt \<Rightarrow> string \<times> error option) \<Rightarrow> (string \<Rightarrow> string \<Rightarrow> error + 'req)
     \<Rightarrow> ('req \<Rightarrow> 'resp option \<times> error option)
     \<Rightarrow> string \<Rightarrow> string \<Rightarrow> int \<Rightarrow> 'opt
     \<Rightarrow> ('resp option \<times> error option) \<times> 'req call list"
where
  "Edit addOptions NewRequest Do org flowName id' opt =
     (let u = ''/flows/'' @ org @ ''/'' @ flowName @ ''/messages/'' @ fmt_d id' in
      case addOptions u opt of
        (u', Some err) \<Rightarrow> ((None, Some err), [addOptions_call u])
      | (u', None) \<Rightarrow>
          (case NewRequest ''PUT'' u' of
             Inl err \<Rightarrow> ((None, Some err), [addOptions_call u, NewRequest_call ''PUT'' u'])
           | Inr req \<Rightarrow>
               (Do req, [addOptions_call u, NewRequest_call ''PUT'' u', Do_call req])))"

definition Delete ::
  "(string \<Rightarrow> string \<Rightarrow> error + 'req) \<Rightarrow> ('req \<Rightarrow> 'resp option \<times> error option)
     \<Rightarrow> string \<Rightarrow> string \<Rightarrow> int
     \<Rightarrow> ('resp option \<times> error option) \<times> 'req call list"
where
  "Delete NewRequest Do org flowName id' =
     (let u = ''/flows/'' @ org @ ''/'' @ flowName @ ''/messages/'' @ fmt_d id' in
      case NewRequest ''DELETE'' u of
        Inl err \<Rightarrow> ((None, Some err), [NewRequest_call ''DELETE'' u])
      | Inr req \<Rightarrow> (Do req, [NewRequest_call ''DELETE'' u, Do_call req]))"

text \<open>
  \<^verbatim>\<open>CreateComment\<close> and \<^verbatim>\<open>Create\<close> assign the error of \<^verbatim>\<open>addOptions\<close> to
  \<^verbatim>\<open>err\<close> and overwrite it with the error of \<^verbatim>\<open>NewRequest\<close> in the next statement,
  without a test in between.
\<close>

definition CreateComment ::
  "(string \<Rightarrow> 'opt \<Rightarrow> string \<times> error option) \<Rightarrow> (string \<Rightarrow> string \<Rightarrow> error + 'req)
     \<Rightarrow> ('req \<Rightarrow> Message \<Rightarrow> 'resp option \<times> error option \<times> Message)
     \<Rightarrow> 'opt
     \<Rightarrow> (Message option \<times> 'resp option \<times> error option) \<times> 'req call list"
where
  "CreateComment addOptions NewRequest Do opt =
     (let u = ''comments'';
          (u', err) = addOptions u opt
      in case NewRequest ''POST'' u' of
           Inl err \<Rightarrow>
             ((None, None, Some err), [addOptions_call u, NewRequest_call ''POST'' u'])
         | Inr req \<Rightarrow>
             (case Do req new_Message of
                (resp, Some err, message) \<Rightarrow>
                  ((None, resp, Some err),
                   [addOptions_call u, NewRequest_call ''POST'' u', Do_call req])
              | (resp, None, message) \<Rightarrow>
                  ((Some message, resp, None),
                   [addOptions_call u, NewRequest_call ''POST'' u', Do_call req])))"

definition Create ::
  "(string \<Rightarrow> 'opt \<Rightarrow> string \<times> error option) \<Rightarrow> (string \<Rightarrow> string \<Rightarrow> error + 'req)
     \<Rightarrow> ('req \<Rightarrow> Message \<Rightarrow> 'resp option \<times> error option \<times> Message)
     \<Rightarrow> 'opt
     \<Rightarrow> (Message option \<times> 'resp option \<times> error option) \<times> 'req call list"
where
  "Create addOptions NewRequest Do opt =
     (let u = ''messages'';
          (u', err) = addOptions u opt
      in case NewRequest ''POST'' u' of
           Inl err \<Rightarrow>
             ((None, None, Some err), [addOptions_call u, NewRequest_call ''POST'' u'])
         | Inr req \<Rightarrow>
             (case Do req new_Message of
                (resp, Some err, message) \<Rightarrow>
                  ((None, resp, Some err),
                   [addOptions_call u, NewRequest_call ''POST'' u', Do_call req])
              | (resp, None, message) \<Rightarrow>
                  ((Some message, resp, None),
                   [addOptions_call u, NewRequest_call ''POST'' u', Do_call req])))"

text \<open>A call that touches the network: sending a request, opening the event source.\<close>

fun is_io :: "'req call \<Rightarrow> bool" where
  "is_io (Do_call req) = True"
| "is_io (eventsource_New_call req d) = True"
| "is_io go_call = True"
| "is_io (addOptions_call u) = False"
| "is_io (NewRequest_call m u) = False"
| "is_io (NewStreamRequest_call m u) = False"

text \<open>The strings a call hands to the construction of a request.\<close>

fun urls :: "'req call list \<Rightarrow> string list" where
  "urls [] = []"
| "urls (addOptions_call u # cs) = u # urls cs"
| "urls (NewRequest_call m u # cs) = u # urls cs"
| "urls (NewStreamRequest_call m u # cs) = u # urls cs"
| "urls (c # cs) = urls cs"

subsection \<open>Options as query parameters\<close>

text \<open>\<^verbatim>\<open>strings.Join\<close>.\<close>

fun join :: "string \<Rightarrow> string list \<Rightarrow> string" where
  "join sep [] = []"
| "join sep [x] = x"
| "join sep (x # y # ys) = x @ sep @ join sep (y # ys)"

text \<open>
  Modelled from the spec: \<^verbatim>\<open>addOptions\<close> and the encoder of the \<^verbatim>\<open>url\<close> struct tags
  are declared outside \<^verbatim>\<open>messages.go\<close>. The spec: an operation "merges an options
  bundle into query parameters (option fields are omitted when at their zero value)",
  "option omission is per-field value-based (not presence-based)", the tags are
  "comma-joined", and a query string reads \<^verbatim>\<open>since_id=5&until_id=10&limit=3\<close>. A field
  gives the pair of its tag's key and its value, or nothing when the value is the zero
  value of its type.
\<close>

definition omitempty_string :: "string \<Rightarrow> string \<Rightarrow> (string \<times> string) list" where
  "omitempty_string key v = (if v = [] then [] else [(key, v)])"

definition omitempty_int :: "string \<Rightarrow> int \<Rightarrow> (string \<times> string) list" where
  "omitempty_int key i = (if i = 0 then [] else [(key, fmt_d i)])"

definition omitempty_comma :: "string \<Rightarrow> string list \<Rightarrow> (string \<times> string) list" where
  "omitempty_comma key vs = (if vs = [] then [] else [(key, join '','' vs)])"

definition MessagesListOptions_values :: "MessagesListOptions \<Rightarrow> (string \<times> string) list" where
  "MessagesListOptions_values opt =
     omitempty_string ''event'' (MessagesListOptions.Event opt) @
     omitempty_int ''limit'' (Limit opt) @
     omitempty_int ''since_id'' (SinceID opt) @
     omitempty_int ''until_id'' (UntilID opt) @
     omitempty_comma ''tags'' (MessagesListOptions.Tags opt) @
     omitempty_string ''tag_mode'' (TagMode opt) @
     omitempty_string ''search'' (Search opt)"

definition MessagesCreateOptions_values :: "MessagesCreateOptions \<Rightarrow> (string \<times> string) list" where
  "MessagesCreateOptions_values opt =
     omitempty_string ''flow'' (MessagesCreateOptions.FlowID opt) @
     omitempty_int ''message'' (MessagesCreateOptions.MessageID opt) @
     omitempty_string ''event'' (MessagesCreateOptions.Event opt) @
     omitempty_string ''content'' (MessagesCreateOptions.Content opt) @
     omitempty_comma ''tags'' (MessagesCreateOptions.Tags opt) @
     omitempty_string ''uuid'' (MessagesCreateOptions.UUID opt) @
     omitempty_string ''external_user_name'' (MessagesCreateOptions.ExternalUserName opt) @
     omitempty_string ''subject'' (Subject opt) @
     omitempty_string ''from_address'' (FromAddress opt) @
     omitempty_string ''source'' (Source opt)"

definition parameter :: "string \<times> string \<Rightarrow> string" where
  "parameter kv = fst kv @ ''='' @ snd kv"

text \<open>
  Modelled from the spec: \<^verbatim>\<open>addOptions(s, opt)\<close>, see above. It appends the parameters
  of the options to the path, after a question mark and joined by \<^verbatim>\<open>&\<close>, and reports no
  error. The spec does not fix the order in which the parameters are written: \<open>arrange\<close>
  is the order the encoder chooses. \<open>encode\<close> reads the struct tags of the options.
\<close>

definition addOptions_model ::
  "((string \<times> string) list \<Rightarrow> (string \<times> string) list) \<Rightarrow> ('opt \<Rightarrow> (string \<times> string) list)
     \<Rightarrow> string \<Rightarrow> 'opt \<Rightarrow> string \<times> error option"
where
  "addOptions_model arrange encode s opt =
     (case arrange (encode opt) of
        [] \<Rightarrow> (s, None)
      | kv # kvs \<Rightarrow> (s @ ''?'' @ join ''&'' (map parameter (kv # kvs)), None))"

record http_response =
  StatusCode :: int
  Body :: string

text \<open>
  Modelled from the spec: \<^verbatim>\<open>Do(req, v)\<close> is declared outside \<^verbatim>\<open>messages.go\<close>. The
  spec: an operation "issues the HTTP call through the collaborator, and maps a successful
  response body into the Message shape"; "any non-2xx HTTP response is surfaced as an API
  error carrying the status and response body"; transport errors and decode errors are
  "surfaced as a failed call". \<open>transport\<close> performs the call, \<open>json_Unmarshal\<close> decodes
  the body into \<open>v\<close>.
\<close>

definition Do_model ::
  "('req \<Rightarrow> error + http_response) \<Rightarrow> (string \<Rightarrow> 'v \<Rightarrow> error + 'v) \<Rightarrow> 'req \<Rightarrow> 'v
     \<Rightarrow> http_response option \<times> error option \<times> 'v"
where
  "Do_model transport json_Unmarshal req v =
     (case transport req of
        Inl err \<Rightarrow> (None, Some err, v)
      | Inr resp \<Rightarrow>
          if 200 \<le> StatusCode resp \<and> StatusCode resp \<le> 299
          then (case json_Unmarshal (Body resp) v of
                  Inl err \<Rightarrow> (Some resp, Some err, v)
                | Inr v' \<Rightarrow> (Some resp, None, v'))
          else (Some resp, Some (fmt_d (StatusCode resp) @ '' '' @ Body resp), v))"

text \<open>The options of the two calls the spec takes as examples.\<close>

definition list_options :: MessagesListOptions where
  "list_options = \<lparr>MessagesListOptions.Event = [], Limit = 3, SinceID = 5, UntilID = 10,
     MessagesListOptions.Tags = [''a'', ''b''], TagMode = ''and'', Search = []\<rparr>"

definition create_options :: MessagesCreateOptions where
  "create_options = \<lparr>MessagesCreateOptions.FlowID = [], MessagesCreateOptions.MessageID = 0,
     MessagesCreateOptions.Event = [], MessagesCreateOptions.Content = ''Howdy-Doo @Jackie #awesome'',
     MessagesCreateOptions.Tags = [], MessagesCreateOptions.UUID = [],
     MessagesCreateOptions.ExternalUserName = [], Subject = ''a subject'',
     FromAddress = [], Source = []\<rparr>"

subsection \<open>A subscription and its caller\<close>

text \<open>
  The task of \<^verbatim>\<open>Stream\<close> runs beside its caller, who holds the handle and may call
  \<^verbatim>\<open>es.Close()\<close> at any moment, and beside the consumer of \<^verbatim>\<open>messageCh\<close>. The task is
  at its \<^verbatim>\<open>es.Read()\<close>, or at its send \<^verbatim>\<open>messageCh <- *m\<close> with a decoded message, or it
  has returned. One step of the subscription is a read of the task that returns (with what
  it returns), a receive of the consumer, which completes the pending send, or the caller's
  close. The source has no other statement between them: the send is not inside a
  \<^verbatim>\<open>select\<close> and nothing tests whether the handle was closed.
\<close>

datatype pc = at_Read | at_send Message | has_returned

datatype step = es_Read read | receive | caller_Close

datatype event = Task action | Caller_Close

fun subscription_step ::
  "(string \<Rightarrow> Message \<Rightarrow> error + Message) \<Rightarrow> step \<Rightarrow> pc \<times> event list \<Rightarrow> (pc \<times> event list) option"
where
  "subscription_step json_Unmarshal (es_Read (error_read err)) (at_Read, evs) =
     Some (has_returned,
       evs @ [Task (Log (''failed to read Stream eventsource: '' @ err)), Task es_Close])"
| "subscription_step json_Unmarshal (es_Read (Event_read data)) (at_Read, evs) =
     (case json_Unmarshal data new_Message of
        Inl err \<Rightarrow>
          Some (has_returned,
            evs @ [Task (Log (''bad JSON data from Stream eventsource: '' @ err)), Task es_Close])
      | Inr m \<Rightarrow> Some (at_send m, evs))"
| "subscription_step json_Unmarshal receive (at_send m, evs) = Some (at_Read, evs @ [Task (Send m)])"
| "subscription_step json_Unmarshal caller_Close (p, evs) = Some (p, evs @ [Caller_Close])"
| "subscription_step json_Unmarshal st (p, evs) = None"

fun subscription ::
  "(string \<Rightarrow> Message \<Rightarrow> error + Message) \<Rightarrow> step list \<Rightarrow> pc \<times> event list \<Rightarrow> (pc \<times> event list) option"
where
  "subscription json_Unmarshal [] s = Some s"
| "subscription json_Unmarshal (st # sts) s =
     (case subscription_step json_Unmarshal st s of
        None \<Rightarrow> None
      | Some s' \<Rightarrow> subscription json_Unmarshal sts s')"

text \<open>
  The steps of a subscription that nobody closes and whose consumer receives every message:
  the task reads, and the consumer receives what the task then sends.
\<close>

fun undisturbed :: "(string \<Rightarrow> Message \<Rightarrow> error + Message) \<Rightarrow> read list \<Rightarrow> step list" where
  "undisturbed json_Unmarshal [] = []"
| "undisturbed json_Unmarshal (error_read err # rest) = [es_Read (error_read err)]"
| "undisturbed json_Unmarshal (Event_read data # rest) =
     es_Read (Event_read data) #
     (case json_Unmarshal data new_Message of
        Inl err \<Rightarrow> []
      | Inr m \<Rightarrow> receive # undisturbed json_Unmarshal rest)"

fun pc_of :: "status \<Rightarrow> pc" where
  "pc_of Returned = has_returned"
| "pc_of In_Read = at_Read"

text \<open>The send a task has pending at its place in the loop.\<close>

fun pending :: "pc \<Rightarrow> action list" where
  "pending (at_send m) = [Send m]"
| "pending p = []"

text \<open>The task's actions among the events, and its sends after the caller's first close.\<close>

fun task_actions :: "event list \<Rightarrow> action list" where
  "task_actions [] = []"
| "task_actions (Task a # evs) = a # task_actions evs"
| "task_actions (Caller_Close # evs) = task_actions evs"

fun sends_after_Close :: "event list \<Rightarrow> Message list" where
  "sends_after_Close [] = []"
| "sends_after_Close (Caller_Close # evs) = sent (task_actions evs)"
| "sends_after_Close (Task a # evs) = sends_after_Close evs"

text \<open>The reads of the task among the steps that follow the caller's first close.\<close>

fun is_Read :: "step \<Rightarrow> bool" where
  "is_Read (es_Read r) = True"
| "is_Read st = False"

fun Reads_after_Close :: "step list \<Rightarrow> step list" where
  "Reads_after_Close [] = []"
| "Reads_after_Close (caller_Close # sts) = filter is_Read sts"
| "Reads_after_Close (st # sts) = Reads_after_Close sts"

text \<open>
  The event source belongs to a library outside the repository. Its \<^verbatim>\<open>Read\<close> is taken to
  fail once \<^verbatim>\<open>Close\<close> was called: in a list of steps, no read that follows a close of the
  caller returns an event.
\<close>

fun no_Event_read :: "step \<Rightarrow> bool" where
  "no_Event_read (es_Read (Event_read data)) = False"
| "no_Event_read st = True"

fun closed_Read_fails :: "step list \<Rightarrow> bool" where
  "closed_Read_fails [] = True"
| "closed_Read_fails (caller_Close # sts) = list_all no_Event_read sts"
| "closed_Read_fails (st # sts) = closed_Read_fails sts"

subsection \<open>Sample collaborators\<close>

text \<open>
  A content decoder that accepts the document \<^verbatim>\<open>null\<close> and every document that starts
  with a brace, a message decoder that accepts \<^verbatim>\<open>{}\<close> and \<^verbatim>\<open>{"flow":"..."}\<close>, and a
  client whose requests are the pairs of method and address it was asked for. They
  instantiate the parameters where a statement is evaluated.
\<close>

definition sample_unmarshal :: "string \<Rightarrow> error + string option" where
  "sample_unmarshal raw =
     (if raw = ''null'' then Inr None
      else if take 1 raw = ''{'' then Inr (Some raw)
      else Inl ''invalid character'')"

definition sample_json :: "(string, string, string, string) json_content" where
  "sample_json = \<lparr>unmarshal_MessageContent = sample_unmarshal,
     unmarshal_CommentContent = sample_unmarshal,
     unmarshal_VcsContent = sample_unmarshal,
     unmarshal_JsonContent = sample_unmarshal\<rparr>"

definition sample_Unmarshal_Message :: "string \<Rightarrow> Message \<Rightarrow> error + Message" where
  "sample_Unmarshal_Message data m =
     (if data = ''{}'' then Inr m
      else if 11 \<le> length data \<and> take 9 data = ''{\"flow\":\"'' \<and> drop (length data - 2) data = ''\"}''
      then Inr (m\<lparr>FlowID := Some (take (length data - 11) (drop 9 data))\<rparr>)
      else Inl ''invalid character'')"

definition sample_NewRequest :: "string \<Rightarrow> string \<Rightarrow> error + string \<times> string" where
  "sample_NewRequest method u = (if u = [] then Inl ''empty url'' else Inr (method, u))"

definition sample_Do :: "string \<times> string \<Rightarrow> 'v \<Rightarrow> http_response option \<times> error option \<times> 'v" where
  "sample_Do req v = (Some \<lparr>StatusCode = 200, Body = ''{}''\<rparr>, None, v)"

definition sample_transport :: "string \<times> string \<Rightarrow> error + http_response" where
  "sample_transport req = Inr \<lparr>StatusCode = 200, Body = ''{}''\<rparr>"

text \<open>A \<^verbatim>\<open>NewRequest\<close> that refuses an address with a percent sign in it.\<close>

definition strict_NewRequest :: "string \<Rightarrow> string \<Rightarrow> error + string \<times> string" where
  "strict_NewRequest method u =
     (if CHR ''%'' \<in> set u then Inl ''invalid URL escape'' else Inr (method, u))"

definition sample_event :: "string \<Rightarrow> string \<Rightarrow> Message" where
  "sample_event e raw = new_Message\<lparr>Event := Some e, RawContent := Some raw\<rparr>"

section \<open>Properties\<close>

subsection \<open>Auxiliary facts\<close>

lemma sent_simps [simp]:
  "sent [] = []"
  "sent (Send m # as) = m # sent as"
  "sent (Log l # as) = sent as"
  "sent (es_Close # as) = sent as"
  "sent (close_messageCh # as) = sent as"
  by (simp_all add: sent_def)

lemma sent_append: "sent (as @ bs) = sent as @ sent bs"
  by (simp add: sent_def)

lemma sent_map_Send: "sent (map Send ms) = ms"
  by (induction ms) simp_all

lemma unmarshal_frames_length:
  assumes "unmarshal_frames json_Unmarshal frames = map Inr ms"
  shows "length ms = length frames"
proof -
  have "length (unmarshal_frames json_Unmarshal frames) = length (map Inr ms :: (error + Message) list)"
    using assms by simp
  then show ?thesis by (simp add: unmarshal_frames_def)
qed

text \<open>
  While every frame decodes, the task sends one message per frame and goes on with the
  reads that follow.
\<close>

lemma stream_task_decoded_frames:
  "unmarshal_frames json_Unmarshal frames = map Inr ms \<Longrightarrow>
   stream_task json_Unmarshal (map Event_read frames @ rest) =
     (map Send ms @ fst (stream_task json_Unmarshal rest), snd (stream_task json_Unmarshal rest))"
proof (induction frames arbitrary: ms)
  case Nil
  then show ?case by (simp add: unmarshal_frames_def)
next
  case (Cons data frames)
  then obtain m ms' where ms: "ms = m # ms'"
    by (cases ms) (auto simp add: unmarshal_frames_def)
  with Cons.prems have m: "json_Unmarshal data new_Message = Inr m"
    and rest: "unmarshal_frames json_Unmarshal frames = map Inr ms'"
    by (simp_all add: unmarshal_frames_def)
  show ?case
    using Cons.IH [OF rest] m ms by (simp add: case_prod_unfold)
qed

text \<open>The parameters \<^verbatim>\<open>addOptions\<close> writes are those of the options, in some order.\<close>

lemma addOptions_model_parameters:
  assumes "mset (arrange (encode opt)) = mset kvs" and "kvs \<noteq> []"
  shows "\<exists>ps. addOptions_model arrange encode s opt = (s @ ''?'' @ join ''&'' ps, None)
            \<and> mset ps = mset (map parameter kvs)"
proof -
  from assms have ne: "arrange (encode opt) \<noteq> []" by auto
  then have "addOptions_model arrange encode s opt =
      (s @ ''?'' @ join ''&'' (map parameter (arrange (encode opt))), None)"
    by (cases "arrange (encode opt)") (simp_all add: addOptions_model_def)
  moreover have "mset (map parameter (arrange (encode opt))) = mset (map parameter kvs)"
    using assms(1) by (metis mset_map)
  ultimately show ?thesis by blast
qed

lemma list_options_values:
  "MessagesListOptions_values list_options =
     [(''limit'', ''3''), (''since_id'', ''5''), (''until_id'', ''10''), (''tags'', ''a,b''),
      (''tag_mode'', ''and'')]"
  by (simp add: MessagesListOptions_values_def list_options_def omitempty_string_def
      omitempty_int_def omitempty_comma_def fmt_d_def digit_def)

lemma create_options_values:
  "MessagesCreateOptions_values create_options =
     [(''content'', ''Howdy-Doo @Jackie #awesome''), (''subject'', ''a subject'')]"
  by (simp add: MessagesCreateOptions_values_def create_options_def omitempty_string_def
      omitempty_int_def omitempty_comma_def)

text \<open>
  A subscription only adds to its events, so it may be followed from the empty list.
\<close>

lemma task_actions_append: "task_actions (evs @ evs') = task_actions evs @ task_actions evs'"
  by (induction evs rule: task_actions.induct) simp_all

lemma sends_after_Close_none: "Caller_Close \<notin> set evs \<Longrightarrow> sends_after_Close evs = []"
  by (induction evs rule: sends_after_Close.induct) simp_all

lemma sends_after_first_Close:
  "Caller_Close \<notin> set evs \<Longrightarrow> sends_after_Close (evs @ Caller_Close # evs') = sent (task_actions evs')"
  by (induction evs rule: sends_after_Close.induct) simp_all

lemma subscription_step_prefix:
  "subscription_step json_Unmarshal st (p, evs) =
     map_option (\<lambda>(p', added). (p', evs @ added)) (subscription_step json_Unmarshal st (p, []))"
  by (cases "(json_Unmarshal, st, (p, []::event list))" rule: subscription_step.cases)
     (auto split: sum.split)

lemma subscription_prefix:
  "subscription json_Unmarshal sts (p, evs) =
     map_option (\<lambda>(p', added). (p', evs @ added)) (subscription json_Unmarshal sts (p, []))"
proof (induction sts arbitrary: p evs)
  case Nil
  show ?case by simp
next
  case (Cons st sts)
  show ?case
  proof (cases "subscription_step json_Unmarshal st (p, [])")
    case None
    then show ?thesis using subscription_step_prefix [of json_Unmarshal st p evs] by simp
  next
    case (Some s')
    obtain p' added where s': "s' = (p', added)" by (cases s')
    have 1: "subscription_step json_Unmarshal st (p, evs) = Some (p', evs @ added)"
      using subscription_step_prefix [of json_Unmarshal st p evs] Some s' by simp
    show ?thesis
      using Some s' 1 Cons.IH [of p' "evs @ added"] Cons.IH [of p' added]
      by (cases "subscription json_Unmarshal sts (p', [])") auto
  qed
qed

lemma subscription_from:
  assumes "subscription json_Unmarshal sts (p0, evs0) = Some (p, evs)"
  shows "\<exists>added. subscription json_Unmarshal sts (p0, []) = Some (p, added) \<and> evs = evs0 @ added"
proof (cases "subscription json_Unmarshal sts (p0, [])")
  case None
  with assms subscription_prefix [of json_Unmarshal sts p0 evs0] show ?thesis by simp
next
  case (Some s)
  obtain p' added where "s = (p', added)" by (cases s)
  with Some assms subscription_prefix [of json_Unmarshal sts p0 evs0] show ?thesis by simp
qed

text \<open>Left alone, a subscription does what the task does on its own.\<close>

lemma subscription_undisturbed:
  "subscription json_Unmarshal (undisturbed json_Unmarshal reads) (at_Read, []) =
     Some (pc_of (snd (stream_task json_Unmarshal reads)),
           map Task (fst (stream_task json_Unmarshal reads)))"
proof (induction reads)
  case Nil
  show ?case by simp
next
  case (Cons r reads)
  show ?case
  proof (cases r)
    case (error_read err)
    then show ?thesis by simp
  next
    case (Event_read data)
    show ?thesis
    proof (cases "json_Unmarshal data new_Message")
      case (Inl err)
      with Event_read show ?thesis by simp
    next
      case (Inr m)
      have "subscription json_Unmarshal (undisturbed json_Unmarshal reads) (at_Read, [Task (Send m)]) =
          Some (pc_of (snd (stream_task json_Unmarshal reads)),
            [Task (Send m)] @ map Task (fst (stream_task json_Unmarshal reads)))"
        using subscription_prefix [of json_Unmarshal "undisturbed json_Unmarshal reads" at_Read "[Task (Send m)]"]
          Cons.IH by simp
      with Event_read Inr show ?thesis by (simp add: case_prod_unfold Let_def)
    qed
  qed
qed

lemma subscription_returned:
  "subscription json_Unmarshal sts (has_returned, []) = Some (p, added) \<Longrightarrow>
   p = has_returned \<and> task_actions added = [] \<and> filter is_Read sts = []"
proof (induction sts arbitrary: added)
  case Nil
  then show ?case by simp
next
  case (Cons st sts)
  show ?case
  proof (cases st)
    case (es_Read r)
    with Cons.prems show ?thesis by simp
  next
    case receive
    with Cons.prems show ?thesis by simp
  next
    case caller_Close
    with Cons.prems have "subscription json_Unmarshal sts (has_returned, [Caller_Close]) = Some (p, added)"
      by simp
    then obtain added' where m: "subscription json_Unmarshal sts (has_returned, []) = Some (p, added')"
      and added: "added = [Caller_Close] @ added'"
      by (blast dest: subscription_from)
    from Cons.IH [OF m] show ?thesis using added caller_Close by simp
  qed
qed

lemma subscription_closed_at_Read:
  "list_all no_Event_read sts \<Longrightarrow>
   subscription json_Unmarshal sts (at_Read, []) = Some (p, added) \<Longrightarrow>
   sent (task_actions added) = [] \<and> length (filter is_Read sts) \<le> 1
   \<and> (filter is_Read sts \<noteq> [] \<longrightarrow> p = has_returned \<and> es_Close \<in> set (task_actions added))"
proof (induction sts arbitrary: added)
  case Nil
  then show ?case by simp
next
  case (Cons st sts)
  show ?case
  proof (cases st)
    case (es_Read r)
    with Cons.prems(1) obtain err where r: "r = error_read err" by (cases r) auto
    let ?evs = "[Task (Log (''failed to read Stream eventsource: '' @ err)), Task es_Close]"
    from Cons.prems(2) es_Read r
    have "subscription json_Unmarshal sts (has_returned, ?evs) = Some (p, added)" by simp
    then obtain added' where m: "subscription json_Unmarshal sts (has_returned, []) = Some (p, added')"
      and added: "added = ?evs @ added'"
      by (blast dest: subscription_from)
    from subscription_returned [OF m] show ?thesis using added es_Read by simp
  next
    case receive
    with Cons.prems show ?thesis by simp
  next
    case caller_Close
    with Cons.prems have "subscription json_Unmarshal sts (at_Read, [Caller_Close]) = Some (p, added)"
      by simp
    then obtain added' where m: "subscription json_Unmarshal sts (at_Read, []) = Some (p, added')"
      and added: "added = [Caller_Close] @ added'"
      by (blast dest: subscription_from)
    from Cons.prems(1) have "list_all no_Event_read sts" by simp
    from Cons.IH [OF this m] show ?thesis using added caller_Close by simp
  qed
qed

lemma subscription_closed_at_send:
  "list_all no_Event_read sts \<Longrightarrow>
   subscription json_Unmarshal sts (at_send m, []) = Some (p, added) \<Longrightarrow>
   length (sent (task_actions added)) \<le> 1 \<and> length (filter is_Read sts) \<le> 1
   \<and> (filter is_Read sts \<noteq> [] \<longrightarrow> p = has_returned \<and> es_Close \<in> set (task_actions added))"
proof (induction sts arbitrary: added)
  case Nil
  then show ?case by simp
next
  case (Cons st sts)
  show ?case
  proof (cases st)
    case (es_Read r)
    with Cons.prems show ?thesis by simp
  next
    case receive
    with Cons.prems have "subscription json_Unmarshal sts (at_Read, [Task (Send m)]) = Some (p, added)"
      by simp
    then obtain added' where m: "subscription json_Unmarshal sts (at_Read, []) = Some (p, added')"
      and added: "added = [Task (Send m)] @ added'"
      by (blast dest: subscription_from)
    from Cons.prems(1) have "list_all no_Event_read sts" by simp
    from subscription_closed_at_Read [OF this m] show ?thesis using added receive by simp
  next
    case caller_Close
    with Cons.prems have "subscription json_Unmarshal sts (at_send m, [Caller_Close]) = Some (p, added)"
      by simp
    then obtain added' where m: "subscription json_Unmarshal sts (at_send m, []) = Some (p, added')"
      and added: "added = [Caller_Close] @ added'"
      by (blast dest: subscription_from)
    from Cons.prems(1) have "list_all no_Event_read sts" by simp
    from Cons.IH [OF this m] show ?thesis using added caller_Close by simp
  qed
qed

lemma subscription_closed:
  assumes "list_all no_Event_read sts"
    and "subscription json_Unmarshal sts (p0, []) = Some (p, added)"
  shows "length (sent (task_actions added)) \<le> 1 \<and> length (filter is_Read sts) \<le> 1
   \<and> (filter is_Read sts \<noteq> [] \<longrightarrow> p = has_returned \<and> es_Close \<in> set (task_actions added))"
proof (cases p0)
  case at_Read
  with subscription_closed_at_Read [OF assms(1)] assms(2) show ?thesis by simp
next
  case (at_send m)
  with subscription_closed_at_send [OF assms(1)] assms(2) show ?thesis by simp
next
  case has_returned
  with subscription_returned assms(2) show ?thesis by fastforce
qed

lemma task_es_Close: "es_Close \<in> set (task_actions evs) \<Longrightarrow> Task es_Close \<in> set evs"
  by (induction evs rule: task_actions.induct) auto

lemma subscription_step_no_Close:
  "subscription_step json_Unmarshal st (p0, evs0) = Some (p1, evs1) \<Longrightarrow> st \<noteq> caller_Close \<Longrightarrow>
   Caller_Close \<notin> set evs0 \<Longrightarrow> Caller_Close \<notin> set evs1"
  by (cases "(json_Unmarshal, st, (p0, evs0))" rule: subscription_step.cases)
     (auto split: sum.splits)

lemma subscription_after_Close:
  "Caller_Close \<notin> set evs0 \<Longrightarrow> closed_Read_fails sts \<Longrightarrow>
   subscription json_Unmarshal sts (p0, evs0) = Some (p, evs) \<Longrightarrow>
   length (sends_after_Close evs) \<le> 1 \<and> length (Reads_after_Close sts) \<le> 1
   \<and> (Reads_after_Close sts \<noteq> [] \<longrightarrow> p = has_returned \<and> Task es_Close \<in> set evs)"
proof (induction sts arbitrary: p0 evs0)
  case Nil
  then show ?case by (simp add: sends_after_Close_none)
next
  case (Cons st sts)
  show ?case
  proof (cases "st = caller_Close")
    case True
    with Cons.prems have run: "subscription json_Unmarshal sts (p0, evs0 @ [Caller_Close]) = Some (p, evs)"
      and fails: "list_all no_Event_read sts"
      by simp_all
    from run obtain added where m: "subscription json_Unmarshal sts (p0, []) = Some (p, added)"
      and evs: "evs = (evs0 @ [Caller_Close]) @ added"
      by (blast dest: subscription_from)
    have "sends_after_Close evs = sent (task_actions added)"
      using evs sends_after_first_Close [OF Cons.prems(1), of added] by simp
    moreover have "es_Close \<in> set (task_actions added) \<Longrightarrow> Task es_Close \<in> set evs"
      using evs task_es_Close [of added] by simp
    ultimately show ?thesis
      using subscription_closed [OF fails m] True by auto
  next
    case False
    from Cons.prems(3) obtain p1 evs1
      where step: "subscription_step json_Unmarshal st (p0, evs0) = Some (p1, evs1)"
        and run: "subscription json_Unmarshal sts (p1, evs1) = Some (p, evs)"
      by (auto split: option.splits)
    have 1: "Caller_Close \<notin> set evs1"
      using subscription_step_no_Close [OF step False Cons.prems(1)] .
    have 2: "closed_Read_fails sts" and 3: "Reads_after_Close (st # sts) = Reads_after_Close sts"
      using False Cons.prems(2) by (cases st; simp)+
    from Cons.IH [OF 1 2 run] 3 show ?thesis by simp
  qed
qed

text \<open>
  A run whose reads are a list of frames and then an error: every frame decodes, since the
  task returns at a frame that does not and reads no more, and every message is received,
  since the task reads again only after its send.
\<close>

lemma subscription_frames_then_error:
  "subscription json_Unmarshal sts (p0, []) = Some (p, evs) \<Longrightarrow>
   filter is_Read sts = map es_Read (map Event_read frames @ [error_read err]) \<Longrightarrow>
   \<exists>ms. unmarshal_frames json_Unmarshal frames = map Inr ms
       \<and> task_actions evs = pending p0 @ map Send ms @
            [Log (''failed to read Stream eventsource: '' @ err), es_Close]
       \<and> p = has_returned"
proof (induction sts arbitrary: p0 frames evs)
  case Nil
  then show ?case by simp
next
  case (Cons st sts)
  show ?case
  proof (cases st)
    case caller_Close
    with Cons.prems(1) have "subscription json_Unmarshal sts (p0, [Caller_Close]) = Some (p, evs)"
      by simp
    then obtain added where run: "subscription json_Unmarshal sts (p0, []) = Some (p, added)"
      and evs: "evs = [Caller_Close] @ added"
      by (blast dest: subscription_from)
    from Cons.prems(2) caller_Close
    have "filter is_Read sts = map es_Read (map Event_read frames @ [error_read err])" by simp
    from Cons.IH [OF run this] show ?thesis using evs by simp
  next
    case receive
    with Cons.prems(1) obtain m where p0: "p0 = at_send m"
      by (cases p0) simp_all
    with Cons.prems(1) receive
    have "subscription json_Unmarshal sts (at_Read, [Task (Send m)]) = Some (p, evs)" by simp
    then obtain added where run: "subscription json_Unmarshal sts (at_Read, []) = Some (p, added)"
      and evs: "evs = [Task (Send m)] @ added"
      by (blast dest: subscription_from)
    from Cons.prems(2) receive
    have "filter is_Read sts = map es_Read (map Event_read frames @ [error_read err])" by simp
    from Cons.IH [OF run this] show ?thesis using evs p0 by simp
  next
    case (es_Read r)
    with Cons.prems(1) have p0: "p0 = at_Read"
      by (cases p0) simp_all
    show ?thesis
    proof (cases frames)
      case Nil
      with Cons.prems(2) es_Read have r: "r = error_read err" and none: "filter is_Read sts = []"
        by simp_all
      let ?evs = "[Task (Log (''failed to read Stream eventsource: '' @ err)), Task es_Close]"
      from Cons.prems(1) es_Read r p0
      have "subscription json_Unmarshal sts (has_returned, ?evs) = Some (p, evs)" by simp
      then obtain added where run: "subscription json_Unmarshal sts (has_returned, []) = Some (p, added)"
        and evs: "evs = ?evs @ added"
        by (blast dest: subscription_from)
      from subscription_returned [OF run] show ?thesis
        using evs p0 Nil by (simp add: unmarshal_frames_def)
    next
      case (Cons data frames')
      with Cons.prems(2) es_Read have r: "r = Event_read data"
        and reads: "filter is_Read sts = map es_Read (map Event_read frames' @ [error_read err])"
        by simp_all
      show ?thesis
      proof (cases "json_Unmarshal data new_Message")
        case (Inl e)
        let ?evs = "[Task (Log (''bad JSON data from Stream eventsource: '' @ e)), Task es_Close]"
        from Cons.prems(1) es_Read r p0 Inl
        have "subscription json_Unmarshal sts (has_returned, ?evs) = Some (p, evs)" by simp
        then obtain added where "subscription json_Unmarshal sts (has_returned, []) = Some (p, added)"
          by (blast dest: subscription_from)
        from subscription_returned [OF this] reads show ?thesis by simp
      next
        case (Inr m)
        from Cons.prems(1) es_Read r p0 Inr
        have run: "subscription json_Unmarshal sts (at_send m, []) = Some (p, evs)" by simp
        from Cons.IH [OF run reads] obtain ms
          where "unmarshal_frames json_Unmarshal frames' = map Inr ms"
            and "task_actions evs = pending (at_send m) @ map Send ms @
              [Log (''failed to read Stream eventsource: '' @ err), es_Close]"
            and "p = has_returned"
          by blast
        then have "unmarshal_frames json_Unmarshal frames = map Inr (m # ms)
          \<and> task_actions evs = pending p0 @ map Send (m # ms) @
              [Log (''failed to read Stream eventsource: '' @ err), es_Close]
          \<and> p = has_returned"
          using Cons Inr p0 by (simp add: unmarshal_frames_def)
        then show ?thesis by blast
      qed
    qed
  qed
qed

text \<open>Once the task has returned, it does nothing more.\<close>

lemma subscription_returned_from:
  assumes "subscription json_Unmarshal sts (has_returned, evs) = Some (p', evs')"
  shows "p' = has_returned \<and> task_actions evs' = task_actions evs"
proof -
  from assms obtain added where run: "subscription json_Unmarshal sts (has_returned, []) = Some (p', added)"
    and evs': "evs' = evs @ added"
    by (blast dest: subscription_from)
  from subscription_returned [OF run] evs' show ?thesis
    by (simp add: task_actions_append)
qed

text \<open>The modelled \<^verbatim>\<open>addOptions\<close> reports no error.\<close>

lemma addOptions_model_no_error: "snd (addOptions_model arrange encode s opt) = None"
  by (simp add: addOptions_model_def split: list.split)

text \<open>Errors of \<^verbatim>\<open>NewStreamRequest\<close> and \<^verbatim>\<open>NewRequest\<close> are returned before any I/O.\<close>

lemma Stream_construction_error:
  assumes "NewStreamRequest ''GET'' (''flows/'' @ org @ ''/'' @ flow @ ''?access_token='' @ token) = Inl err"
  shows "fst (Stream NewStreamRequest token org flow) = Inl err
       \<and> filter is_io (snd (Stream NewStreamRequest token org flow)) = []"
  using assms by (simp add: Stream_def Let_def)

lemma Create_NewRequest_error:
  assumes "NewRequest ''POST'' (fst (addOptions ''messages'' opt)) = Inl err"
  shows "fst (Create addOptions NewRequest Do opt) = (None, None, Some err)
       \<and> filter is_io (snd (Create addOptions NewRequest Do opt)) = []"
  using assms by (cases "addOptions ''messages'' opt") (simp add: Create_def Let_def)

lemma CreateComment_NewRequest_error:
  assumes "NewRequest ''POST'' (fst (addOptions ''comments'' opt)) = Inl err"
  shows "fst (CreateComment addOptions NewRequest Do opt) = (None, None, Some err)
       \<and> filter is_io (snd (CreateComment addOptions NewRequest Do opt)) = []"
  using assms by (cases "addOptions ''comments'' opt") (simp add: CreateComment_def Let_def)

subsection \<open>Content variant resolution\<close>

text \<open>
  C1, as the claim states it, fails for a message without an event: \<^verbatim>\<open>*m.Event\<close>
  dereferences nil and \<^verbatim>\<open>Content()\<close> panics, although the raw content is a document the
  generic variant accepts.
\<close>

theorem Content_missing_event_panics:
  "Content sample_json (new_Message\<lparr>RawContent := Some ''{}''\<rparr>) = Panics nil_dereference
   \<and> unmarshal_JsonContent sample_json ''{}'' = Inr (Some ''{}'')"
  by (simp add: Content_def new_Message_def sample_json_def sample_unmarshal_def)

text \<open>
  C1, amended: for every message whose event is present and whose raw content is present
  and decodes into a value of the selected shape, \<^verbatim>\<open>Content()\<close> dispatches on the event:
  \<^verbatim>\<open>"message"\<close> yields a MessageContent, \<^verbatim>\<open>"comment"\<close> a CommentContent, \<^verbatim>\<open>"vcs"\<close> a
  VcsContent and any other event the generic JSON variant, each holding the value decoded
  from the raw content.
\<close>

theorem Content_dispatch:
  assumes "Message.Event m = Some e" and "RawContent m = Some raw"
  shows "(e = ''message'' \<and> unmarshal_MessageContent J raw = Inr (Some a) \<longrightarrow>
            Content J m = Returns (Some (MessageContent a)))
       \<and> (e = ''comment'' \<and> unmarshal_CommentContent J raw = Inr (Some b) \<longrightarrow>
            Content J m = Returns (Some (CommentContent b)))
       \<and> (e = ''vcs'' \<and> unmarshal_VcsContent J raw = Inr (Some c) \<longrightarrow>
            Content J m = Returns (Some (VcsContent c)))
       \<and> (e \<noteq> ''message'' \<and> e \<noteq> ''comment'' \<and> e \<noteq> ''vcs''
            \<and> unmarshal_JsonContent J raw = Inr (Some d) \<longrightarrow>
            Content J m = Returns (Some (JsonContent d)))"
  using assms by (simp add: Content_def switch_Event_def)

theorem Content_dispatch_witness:
  "Content sample_json (sample_event ''message'' ''{\"text\":\"hi\"}'') =
     Returns (Some (MessageContent ''{\"text\":\"hi\"}''))
   \<and> Content sample_json (sample_event ''comment'' ''{\"text\":\"hi\"}'') =
     Returns (Some (CommentContent ''{\"text\":\"hi\"}''))
   \<and> Content sample_json (sample_event ''vcs'' ''{\"text\":\"hi\"}'') =
     Returns (Some (VcsContent ''{\"text\":\"hi\"}''))
   \<and> Content sample_json (sample_event ''file'' ''{\"text\":\"hi\"}'') =
     Returns (Some (JsonContent ''{\"text\":\"hi\"}''))"
proof -
  let ?raw = "''{\"text\":\"hi\"}''"
  have ev: "\<And>e. Message.Event (sample_event e ?raw) = Some e"
    and rc: "\<And>e. RawContent (sample_event e ?raw) = Some ?raw"
    by (simp_all add: sample_event_def)
  have u: "unmarshal_MessageContent sample_json ?raw = Inr (Some ?raw)"
    "unmarshal_CommentContent sample_json ?raw = Inr (Some ?raw)"
    "unmarshal_VcsContent sample_json ?raw = Inr (Some ?raw)"
    "unmarshal_JsonContent sample_json ?raw = Inr (Some ?raw)"
    by (simp_all add: sample_json_def sample_unmarshal_def)
  show ?thesis
    using Content_dispatch [OF ev rc, of "''message''" sample_json ?raw ?raw ?raw ?raw]
      Content_dispatch [OF ev rc, of "''comment''" sample_json ?raw ?raw ?raw ?raw]
      Content_dispatch [OF ev rc, of "''vcs''" sample_json ?raw ?raw ?raw ?raw]
      Content_dispatch [OF ev rc, of "''file''" sample_json ?raw ?raw ?raw ?raw] u
    by simp
qed

text \<open>
  C4, as the claim states it, fails: \<^verbatim>\<open>Content()\<close> has no error result. When the
  content does not decode, the call does not return to its caller at all; it panics.
\<close>

theorem Content_decode_failure_not_returned:
  "json_Unmarshal_content sample_json ''oops'' (switch_Event ''message'') = Inl ''invalid character''
   \<and> Content sample_json (sample_event ''message'' ''oops'') = Panics ''invalid character''"
  by (simp add: Content_def sample_event_def new_Message_def switch_Event_def
      sample_json_def sample_unmarshal_def)

text \<open>
  C4, amended: for every message with an event and a raw content, when decoding the content
  into the selected variant fails, \<^verbatim>\<open>Content()\<close> panics with the text of the decoding
  error; it returns no value, so never an empty or default-valued variant.
\<close>

theorem Content_decode_failure_panics:
  assumes "Message.Event m = Some e" and "RawContent m = Some raw"
    and "json_Unmarshal_content J raw (switch_Event e) = Inl err"
  shows "Content J m = Panics err \<and> Content J m \<noteq> Returns content"
  using assms by (simp add: Content_def)

theorem Content_decode_failure_panics_witness:
  "Content sample_json (sample_event ''vcs'' ''[1,2'') = Panics ''invalid character''
   \<and> Content sample_json (sample_event ''vcs'' ''[1,2'') \<noteq> Returns None"
proof -
  have "Message.Event (sample_event ''vcs'' ''[1,2'') = Some ''vcs''"
    and "RawContent (sample_event ''vcs'' ''[1,2'') = Some ''[1,2''"
    by (simp_all add: sample_event_def)
  moreover have "json_Unmarshal_content sample_json ''[1,2'' (switch_Event ''vcs'') =
      Inl ''invalid character''"
    by (simp add: switch_Event_def sample_json_def sample_unmarshal_def)
  ultimately show ?thesis
    by (rule Content_decode_failure_panics)
qed

subsection \<open>The background task of the stream\<close>

text \<open>
  C2, as the claim states it, fails when a frame that was read does not decode: the task
  logs and returns, and the frame yields no message. Two frames are read here and one
  message is sent.
\<close>

theorem Stream_undecodable_frame_dropped:
  "stream_task sample_Unmarshal_Message [Event_read ''{}'', Event_read ''oops''] =
     ([Send new_Message, Log ''bad JSON data from Stream eventsource: invalid character'',
       es_Close], Returned)
   \<and> length (sent (fst (stream_task sample_Unmarshal_Message
         [Event_read ''{}'', Event_read ''oops'']))) \<noteq> length [''{}'', ''oops'']"
  by (simp add: sample_Unmarshal_Message_def)

text \<open>
  C2, amended: for every sequence of N frames read from the event source, each of which
  decodes as a Message, the task sends exactly N messages on the output channel: the
  decoded frames, in the order the frames arrived, none dropped, duplicated or reordered.
\<close>

theorem Stream_frames_in_order:
  assumes "unmarshal_frames json_Unmarshal frames = map Inr ms"
  shows "sent (fst (stream_task json_Unmarshal (map Event_read frames))) = ms
       \<and> length ms = length frames
       \<and> fst (stream_task json_Unmarshal (map Event_read frames)) = map Send ms"
proof -
  have "fst (stream_task json_Unmarshal (map Event_read frames)) = map Send ms"
    using stream_task_decoded_frames [OF assms, of "[]"] by simp
  then show ?thesis
    using unmarshal_frames_length [OF assms] by (simp add: sent_map_Send)
qed

theorem Stream_frames_in_order_witness:
  "sent (fst (stream_task sample_Unmarshal_Message
       (map Event_read [''{\"flow\":\"a\"}'', ''{}'', ''{\"flow\":\"b\"}'']))) =
     [new_Message\<lparr>FlowID := Some ''a''\<rparr>, new_Message, new_Message\<lparr>FlowID := Some ''b''\<rparr>]"
proof -
  have "unmarshal_frames sample_Unmarshal_Message
        [''{\"flow\":\"a\"}'', ''{}'', ''{\"flow\":\"b\"}''] =
      map Inr [new_Message\<lparr>FlowID := Some ''a''\<rparr>, new_Message,
        new_Message\<lparr>FlowID := Some ''b''\<rparr>]"
    by (simp add: unmarshal_frames_def sample_Unmarshal_Message_def)
  from Stream_frames_in_order [OF this] show ?thesis by simp
qed

text \<open>
  On its own, the task that is offered frames that decode and then a read error sends their
  messages, logs the error, closes the event source and returns.
\<close>

lemma stream_task_read_error:
  assumes "unmarshal_frames json_Unmarshal frames = map Inr ms"
  shows "stream_task json_Unmarshal (map Event_read frames @ error_read err # rest) =
           (map Send ms @ [Log (''failed to read Stream eventsource: '' @ err), es_Close],
            Returned)
       \<and> sent (fst (stream_task json_Unmarshal
             (map Event_read frames @ error_read err # rest))) = ms
       \<and> length ms = length frames
       \<and> close_messageCh \<notin> set (fst (stream_task json_Unmarshal
             (map Event_read frames @ error_read err # rest)))"
proof -
  have run: "stream_task json_Unmarshal (map Event_read frames @ error_read err # rest) =
      (map Send ms @ [Log (''failed to read Stream eventsource: '' @ err), es_Close], Returned)"
    using stream_task_decoded_frames [OF assms, of "error_read err # rest"] by simp
  show ?thesis
    unfolding run using unmarshal_frames_length [OF assms]
    by (auto simp add: sent_append sent_map_Send)
qed

text \<open>
  C3: for every run of the task in which the event source yields K frames and then a read
  error, that is, in which the reads of the task return K frames and then the error,
  exactly K messages are delivered on the output channel; the task then logs the error,
  closes the event source and has returned, no send occurs whatever happens afterwards,
  and the output channel is never closed.
\<close>

theorem Stream_read_error:
  assumes "subscription json_Unmarshal sts (at_Read, []) = Some (p, evs)"
    and "filter is_Read sts = map es_Read (map Event_read frames @ [error_read err])"
  shows "length (sent (task_actions evs)) = length frames
       \<and> unmarshal_frames json_Unmarshal frames = map Inr (sent (task_actions evs))
       \<and> task_actions evs = map Send (sent (task_actions evs)) @
            [Log (''failed to read Stream eventsource: '' @ err), es_Close]
       \<and> p = has_returned
       \<and> close_messageCh \<notin> set (task_actions evs)
       \<and> (subscription json_Unmarshal sts' (p, evs) = Some (p', evs') \<longrightarrow>
            p' = has_returned \<and> task_actions evs' = task_actions evs)"
proof -
  from subscription_frames_then_error [OF assms] obtain ms
    where ms: "unmarshal_frames json_Unmarshal frames = map Inr ms"
      and acts: "task_actions evs = map Send ms @
            [Log (''failed to read Stream eventsource: '' @ err), es_Close]"
      and p: "p = has_returned"
    by auto
  have s: "sent (task_actions evs) = ms"
    unfolding acts by (simp add: sent_append sent_map_Send)
  have "close_messageCh \<notin> set (task_actions evs)"
    unfolding acts by auto
  moreover have "subscription json_Unmarshal sts' (p, evs) = Some (p', evs') \<longrightarrow>
            p' = has_returned \<and> task_actions evs' = task_actions evs"
    using subscription_returned_from [of json_Unmarshal sts' evs p' evs'] p by simp
  ultimately show ?thesis
    using s ms acts p unmarshal_frames_length [OF ms] by simp
qed

theorem Stream_read_error_witness:
  "subscription sample_Unmarshal_Message
     [es_Read (Event_read ''{\"flow\":\"a\"}''), receive, es_Read (Event_read ''{}''), receive,
      es_Read (error_read ''EOF'')] (at_Read, []) =
     Some (has_returned, [Task (Send (new_Message\<lparr>FlowID := Some ''a''\<rparr>)), Task (Send new_Message),
       Task (Log ''failed to read Stream eventsource: EOF''), Task es_Close])
   \<and> length (sent (task_actions [Task (Send (new_Message\<lparr>FlowID := Some ''a''\<rparr>)),
       Task (Send new_Message), Task (Log ''failed to read Stream eventsource: EOF''),
       Task es_Close])) = length [''{\"flow\":\"a\"}'', ''{}'']"
proof -
  let ?sts = "[es_Read (Event_read ''{\"flow\":\"a\"}''), receive, es_Read (Event_read ''{}''), receive,
      es_Read (error_read ''EOF'')]"
  let ?evs = "[Task (Send (new_Message\<lparr>FlowID := Some ''a''\<rparr>)), Task (Send new_Message),
       Task (Log ''failed to read Stream eventsource: EOF''), Task es_Close]"
  have run: "subscription sample_Unmarshal_Message ?sts (at_Read, []) = Some (has_returned, ?evs)"
    by (simp add: sample_Unmarshal_Message_def)
  have reads: "filter is_Read ?sts =
      map es_Read (map Event_read [''{\"flow\":\"a\"}'', ''{}''] @ [error_read ''EOF''])"
    by simp
  from Stream_read_error [OF run reads] run show ?thesis by blast
qed

text \<open>
  C5, as the claim states it, fails: the task reads a frame and is at its send when the
  caller closes the handle; the consumer then receives, and the send completes after the
  closure.
\<close>

theorem Stream_send_follows_Close:
  "subscription sample_Unmarshal_Message [es_Read (Event_read ''{}''), caller_Close, receive]
       (at_Read, []) = Some (at_Read, [Caller_Close, Task (Send new_Message)])
   \<and> sends_after_Close [Caller_Close, Task (Send new_Message)] = [new_Message]"
  by (simp add: sample_Unmarshal_Message_def)

text \<open>
  C5, amended: for every run of a subscription in which reads of the closed event source
  fail, at most one message is sent on the output channel after the caller closes the
  handle (the message of a frame read before the closure), the task reads at most once
  after the closure, and that read makes it return and close the event source.
\<close>

theorem Stream_after_Close:
  assumes "subscription json_Unmarshal sts (at_Read, []) = Some (p, evs)"
    and "closed_Read_fails sts"
  shows "length (sends_after_Close evs) \<le> 1
       \<and> length (Reads_after_Close sts) \<le> 1
       \<and> (Reads_after_Close sts \<noteq> [] \<longrightarrow> p = has_returned \<and> Task es_Close \<in> set evs)"
  using subscription_after_Close [OF _ assms(2) assms(1)] by simp

theorem Stream_after_Close_witness:
  "subscription sample_Unmarshal_Message
       [es_Read (Event_read ''{}''), caller_Close, receive, es_Read (error_read ''closed'')]
       (at_Read, []) =
     Some (has_returned, [Caller_Close, Task (Send new_Message),
       Task (Log ''failed to read Stream eventsource: closed''), Task es_Close])
   \<and> closed_Read_fails
       [es_Read (Event_read ''{}''), caller_Close, receive, es_Read (error_read ''closed'')]
   \<and> length (sends_after_Close [Caller_Close, Task (Send new_Message),
       Task (Log ''failed to read Stream eventsource: closed''), Task es_Close]) \<le> 1"
proof -
  have run: "subscription sample_Unmarshal_Message
       [es_Read (Event_read ''{}''), caller_Close, receive, es_Read (error_read ''closed'')]
       (at_Read, []) =
     Some (has_returned, [Caller_Close, Task (Send new_Message),
       Task (Log ''failed to read Stream eventsource: closed''), Task es_Close])"
    by (simp add: sample_Unmarshal_Message_def)
  have fails: "closed_Read_fails
       [es_Read (Event_read ''{}''), caller_Close, receive, es_Read (error_read ''closed'')]"
    by simp
  from Stream_after_Close [OF run fails] run fails show ?thesis by blast
qed

subsection \<open>The requests\<close>

text \<open>
  C9: every call \<^verbatim>\<open>Stream(token, org, flow)\<close> asks for a request with method GET and the
  address \<^verbatim>\<open>flows/{org}/{flow}?access_token={token}\<close>, and when that request is built, the
  event source is made from it with a retry interval of three seconds, which is the
  interval of the handle returned.
\<close>

theorem Stream_request:
  "snd (Stream NewStreamRequest token org flow) =
     NewStreamRequest_call ''GET'' (''flows/'' @ org @ ''/'' @ flow @ ''?access_token='' @ token) #
     (case NewStreamRequest ''GET'' (''flows/'' @ org @ ''/'' @ flow @ ''?access_token='' @ token) of
        Inl err \<Rightarrow> []
      | Inr req \<Rightarrow> [eventsource_New_call req (3 * Second), go_call])
   \<and> (case fst (Stream NewStreamRequest token org flow) of
        Inl err \<Rightarrow>
          NewStreamRequest ''GET'' (''flows/'' @ org @ ''/'' @ flow @ ''?access_token='' @ token) =
            Inl err
      | Inr es \<Rightarrow>
          NewStreamRequest ''GET'' (''flows/'' @ org @ ''/'' @ flow @ ''?access_token='' @ token) =
            Inr (request es)
          \<and> retry es = 3 * Second)
   \<and> 3 * Second = 3000000000"
  by (simp add: Stream_def Let_def Second_def split: sum.split)

text \<open>
  C10: for every organisation, flow name and message id, \<^verbatim>\<open>Edit\<close> and \<^verbatim>\<open>Delete\<close> build
  the path \<^verbatim>\<open>/flows/{org}/{flow}/messages/{id}\<close>, with a leading slash, and \<^verbatim>\<open>Get\<close> builds
  \<^verbatim>\<open>flows/{org}/{flow}/messages/{id}\<close>, without one. \<^verbatim>\<open>Get\<close> and \<^verbatim>\<open>Delete\<close> pass their
  path to \<^verbatim>\<open>NewRequest\<close>, \<^verbatim>\<open>Edit\<close> passes its path to \<^verbatim>\<open>addOptions\<close> and what that
  returns to \<^verbatim>\<open>NewRequest\<close>. The two paths are never equal.
\<close>

theorem Edit_Delete_Get_paths:
  "urls (snd (Get NewRequest Do org flowName id')) =
      [''flows/'' @ org @ ''/'' @ flowName @ ''/messages/'' @ fmt_d id']
   \<and> urls (snd (Delete NewRequest' Do' org flowName id')) =
      [''/flows/'' @ org @ ''/'' @ flowName @ ''/messages/'' @ fmt_d id']
   \<and> urls (snd (Edit addOptions NewRequest'' Do'' org flowName id' opt)) =
      (''/flows/'' @ org @ ''/'' @ flowName @ ''/messages/'' @ fmt_d id') #
      (case addOptions (''/flows/'' @ org @ ''/'' @ flowName @ ''/messages/'' @ fmt_d id') opt of
         (u', None) \<Rightarrow> [u']
       | (u', Some err) \<Rightarrow> [])
   \<and> ''/flows/'' @ org @ ''/'' @ flowName @ ''/messages/'' @ fmt_d id' \<noteq>
      ''flows/'' @ org @ ''/'' @ flowName @ ''/messages/'' @ fmt_d id'"
  by (simp add: Get_def Delete_def Edit_def Let_def split: sum.split prod.split option.split)

text \<open>
  C6: for \<^verbatim>\<open>Stream\<close>, \<^verbatim>\<open>Create\<close> and \<^verbatim>\<open>CreateComment\<close>, when the construction of
  the request fails, the operation returns that error and has done no I/O: it has asked for
  the request once and for nothing else. The request is built by \<^verbatim>\<open>NewStreamRequest\<close> or
  \<^verbatim>\<open>NewRequest\<close>; \<^verbatim>\<open>addOptions\<close>, which \<^verbatim>\<open>Create\<close> and \<^verbatim>\<open>CreateComment\<close> call
  before on a constant path and a struct of strings, integers and string lists, reports no
  error.
\<close>

theorem construction_error_returned:
  "(NewStreamRequest ''GET'' (''flows/'' @ org @ ''/'' @ flow @ ''?access_token='' @ token) = Inl err \<longrightarrow>
      Stream NewStreamRequest token org flow =
        (Inl err,
         [NewStreamRequest_call ''GET'' (''flows/'' @ org @ ''/'' @ flow @ ''?access_token='' @ token)])
      \<and> filter is_io (snd (Stream NewStreamRequest token org flow)) = [])
   \<and> (NewRequest ''POST'' (fst (addOptions ''messages'' opt)) = Inl err \<longrightarrow>
      Create addOptions NewRequest Do opt =
        ((None, None, Some err),
         [addOptions_call ''messages'', NewRequest_call ''POST'' (fst (addOptions ''messages'' opt))])
      \<and> filter is_io (snd (Create addOptions NewRequest Do opt)) = [])
   \<and> (NewRequest ''POST'' (fst (addOptions ''comments'' opt)) = Inl err \<longrightarrow>
      CreateComment addOptions NewRequest Do opt =
        ((None, None, Some err),
         [addOptions_call ''comments'', NewRequest_call ''POST'' (fst (addOptions ''comments'' opt))])
      \<and> filter is_io (snd (CreateComment addOptions NewRequest Do opt)) = [])
   \<and> snd (addOptions_model arrange encode s opt') = None"
proof -
  have "NewRequest ''POST'' (fst (addOptions ''messages'' opt)) = Inl err \<longrightarrow>
      Create addOptions NewRequest Do opt =
        ((None, None, Some err),
         [addOptions_call ''messages'', NewRequest_call ''POST'' (fst (addOptions ''messages'' opt))])"
    by (cases "addOptions ''messages'' opt") (simp add: Create_def Let_def)
  moreover have "NewRequest ''POST'' (fst (addOptions ''comments'' opt)) = Inl err \<longrightarrow>
      CreateComment addOptions NewRequest Do opt =
        ((None, None, Some err),
         [addOptions_call ''comments'', NewRequest_call ''POST'' (fst (addOptions ''comments'' opt))])"
    by (cases "addOptions ''comments'' opt") (simp add: CreateComment_def Let_def)
  moreover have "NewStreamRequest ''GET'' (''flows/'' @ org @ ''/'' @ flow @ ''?access_token='' @ token) = Inl err \<longrightarrow>
      Stream NewStreamRequest token org flow =
        (Inl err,
         [NewStreamRequest_call ''GET'' (''flows/'' @ org @ ''/'' @ flow @ ''?access_token='' @ token)])"
    by (simp add: Stream_def Let_def)
  ultimately show ?thesis
    by (simp add: addOptions_model_no_error)
qed

theorem construction_error_returned_witness:
  "Stream strict_NewRequest ''tok'' ''100%'' ''main'' =
     (Inl ''invalid URL escape'', [NewStreamRequest_call ''GET'' ''flows/100%/main?access_token=tok''])
   \<and> Create (addOptions_model id MessagesCreateOptions_values) strict_NewRequest sample_Do
       (create_options\<lparr>MessagesCreateOptions.Content := ''100%''\<rparr>) =
     ((None, None, Some ''invalid URL escape''),
      [addOptions_call ''messages'', NewRequest_call ''POST'' ''messages?content=100%&subject=a subject''])
   \<and> CreateComment (addOptions_model id MessagesCreateOptions_values) strict_NewRequest sample_Do
       (create_options\<lparr>MessagesCreateOptions.Content := ''100%''\<rparr>) =
     ((None, None, Some ''invalid URL escape''),
      [addOptions_call ''comments'', NewRequest_call ''POST'' ''comments?content=100%&subject=a subject''])"
proof -
  let ?opt = "create_options\<lparr>MessagesCreateOptions.Content := ''100%''\<rparr>"
  let ?add = "addOptions_model id MessagesCreateOptions_values"
  have s: "strict_NewRequest ''GET'' (''flows/'' @ ''100%'' @ ''/'' @ ''main'' @ ''?access_token='' @ ''tok'') =
      Inl ''invalid URL escape''"
    by (simp add: strict_NewRequest_def)
  have v: "MessagesCreateOptions_values ?opt = [(''content'', ''100%''), (''subject'', ''a subject'')]"
    by (simp add: MessagesCreateOptions_values_def create_options_def omitempty_string_def
      omitempty_int_def omitempty_comma_def)
  have m: "fst (?add ''messages'' ?opt) = ''messages?content=100%&subject=a subject''"
    and c: "fst (?add ''comments'' ?opt) = ''comments?content=100%&subject=a subject''"
    by (simp_all add: addOptions_model_def v parameter_def)
  have nm: "strict_NewRequest ''POST'' (fst (?add ''messages'' ?opt)) = Inl ''invalid URL escape''"
    and nc: "strict_NewRequest ''POST'' (fst (?add ''comments'' ?opt)) = Inl ''invalid URL escape''"
    unfolding m c by (simp_all add: strict_NewRequest_def)
  from construction_error_returned [of strict_NewRequest "''100%''" "''main''" "''tok''"
      "''invalid URL escape''" strict_NewRequest ?add ?opt sample_Do
      id MessagesCreateOptions_values "''messages''" ?opt]
    s nm nc m c
  show ?thesis by simp
qed

text \<open>
  C7, as the claim states it, fails: the address does not contain the string
  \<^verbatim>\<open>since_id=5&until_id=10&limit=3&tags=a,b&tag_mode=and\<close>, neither when the encoder
  writes the parameters in the order of the fields of \<^verbatim>\<open>MessagesListOptions\<close>, where the
  limit stands before the two ids, nor when it sorts them by key.
\<close>

theorem List_query_order:
  "snd (List (addOptions_model id MessagesListOptions_values) sample_NewRequest sample_Do
       ''org'' ''main'' list_options) =
     [addOptions_call ''flows/org/main/messages'',
      NewRequest_call ''GET'' ''flows/org/main/messages?limit=3&since_id=5&until_id=10&tags=a,b&tag_mode=and'',
      Do_call (''GET'', ''flows/org/main/messages?limit=3&since_id=5&until_id=10&tags=a,b&tag_mode=and'')]
   \<and> \<not> sublist ''since_id=5&until_id=10&limit=3&tags=a,b&tag_mode=and''
       ''flows/org/main/messages?limit=3&since_id=5&until_id=10&tags=a,b&tag_mode=and''
   \<and> snd (List (addOptions_model (sort_key fst) MessagesListOptions_values) sample_NewRequest sample_Do
       ''org'' ''main'' list_options) =
     [addOptions_call ''flows/org/main/messages'',
      NewRequest_call ''GET'' ''flows/org/main/messages?limit=3&since_id=5&tag_mode=and&tags=a,b&until_id=10'',
      Do_call (''GET'', ''flows/org/main/messages?limit=3&since_id=5&tag_mode=and&tags=a,b&until_id=10'')]
   \<and> \<not> sublist ''since_id=5&until_id=10&limit=3&tags=a,b&tag_mode=and''
       ''flows/org/main/messages?limit=3&since_id=5&tag_mode=and&tags=a,b&until_id=10''"
proof -
  have sorted: "sort_key fst [(''limit'', ''3''), (''since_id'', ''5''), (''until_id'', ''10''),
      (''tags'', ''a,b''), (''tag_mode'', ''and'')] =
    [(''limit'', ''3''), (''since_id'', ''5''), (''tag_mode'', ''and''), (''tags'', ''a,b''),
      (''until_id'', ''10'')]"
    by code_simp
  have 1: "snd (List (addOptions_model id MessagesListOptions_values) sample_NewRequest sample_Do
       ''org'' ''main'' list_options) =
     [addOptions_call ''flows/org/main/messages'',
      NewRequest_call ''GET'' ''flows/org/main/messages?limit=3&since_id=5&until_id=10&tags=a,b&tag_mode=and'',
      Do_call (''GET'', ''flows/org/main/messages?limit=3&since_id=5&until_id=10&tags=a,b&tag_mode=and'')]"
    by (simp add: List_def addOptions_model_def list_options_values parameter_def
        sample_NewRequest_def sample_Do_def)
  have 2: "\<not> sublist ''since_id=5&until_id=10&limit=3&tags=a,b&tag_mode=and''
       ''flows/org/main/messages?limit=3&since_id=5&until_id=10&tags=a,b&tag_mode=and''"
    by code_simp
  have 3: "snd (List (addOptions_model (sort_key fst) MessagesListOptions_values) sample_NewRequest sample_Do
       ''org'' ''main'' list_options) =
     [addOptions_call ''flows/org/main/messages'',
      NewRequest_call ''GET'' ''flows/org/main/messages?limit=3&since_id=5&tag_mode=and&tags=a,b&until_id=10'',
      Do_call (''GET'', ''flows/org/main/messages?limit=3&since_id=5&tag_mode=and&tags=a,b&until_id=10'')]"
    by (simp add: List_def addOptions_model_def list_options_values sorted parameter_def
        sample_NewRequest_def sample_Do_def del: sort_key_simps)
  have 4: "\<not> sublist ''since_id=5&until_id=10&limit=3&tags=a,b&tag_mode=and''
       ''flows/org/main/messages?limit=3&since_id=5&tag_mode=and&tags=a,b&until_id=10''"
    by code_simp
  from 1 2 3 4 show ?thesis by blast
qed

text \<open>
  C7, amended: for every call \<^verbatim>\<open>List(org, flow, opt)\<close> with the options
  \<^const>\<open>list_options\<close>, the address of the request is the path, a question mark and the
  five parameters \<^verbatim>\<open>since_id=5\<close>, \<^verbatim>\<open>until_id=10\<close>, \<^verbatim>\<open>limit=3\<close>, \<^verbatim>\<open>tags=a,b\<close> and
  \<^verbatim>\<open>tag_mode=and\<close> joined by \<^verbatim>\<open>&\<close>, in the order the encoder writes them; no parameter
  has the key of an option left at its zero value, in particular none has the key
  \<^verbatim>\<open>event\<close> or \<^verbatim>\<open>search\<close>.
\<close>

theorem List_query:
  assumes "\<And>kvs. mset (arrange kvs) = mset kvs"
  shows "\<exists>ps. take 2 (snd (List (addOptions_model arrange MessagesListOptions_values) NewRequest Do
             org flow list_options)) =
           [addOptions_call (''flows/'' @ org @ ''/'' @ flow @ ''/messages''),
            NewRequest_call ''GET'' (''flows/'' @ org @ ''/'' @ flow @ ''/messages?'' @ join ''&'' ps)]
         \<and> mset ps = mset [''since_id=5'', ''until_id=10'', ''limit=3'', ''tags=a,b'', ''tag_mode=and'']
         \<and> list_all (\<lambda>p. take 6 p \<noteq> ''event='' \<and> take 7 p \<noteq> ''search='') ps"
proof -
  have "mset (arrange (MessagesListOptions_values list_options)) =
      mset [(''limit'', ''3''), (''since_id'', ''5''), (''until_id'', ''10''), (''tags'', ''a,b''),
      (''tag_mode'', ''and'')]"
    using assms by (simp add: list_options_values)
  from addOptions_model_parameters [where arrange = arrange and encode = MessagesListOptions_values
      and opt = list_options and s = "''flows/'' @ org @ ''/'' @ flow @ ''/messages''", OF this]
  obtain ps where a: "addOptions_model arrange MessagesListOptions_values
        (''flows/'' @ org @ ''/'' @ flow @ ''/messages'') list_options =
        ((''flows/'' @ org @ ''/'' @ flow @ ''/messages'') @ ''?'' @ join ''&'' ps, None)"
    and ps: "mset ps = mset (map parameter [(''limit'', ''3''), (''since_id'', ''5''),
        (''until_id'', ''10''), (''tags'', ''a,b''), (''tag_mode'', ''and'')])"
    by auto
  have "take 2 (snd (List (addOptions_model arrange MessagesListOptions_values) NewRequest Do
             org flow list_options)) =
           [addOptions_call (''flows/'' @ org @ ''/'' @ flow @ ''/messages''),
            NewRequest_call ''GET'' (''flows/'' @ org @ ''/'' @ flow @ ''/messages?'' @ join ''&'' ps)]"
    using a by (simp add: List_def Let_def split: sum.split prod.split option.split)
  moreover have five: "mset ps = mset [''since_id=5'', ''until_id=10'', ''limit=3'', ''tags=a,b'', ''tag_mode=and'']"
    unfolding ps by (simp add: parameter_def)
  moreover have "list_all (\<lambda>p. take 6 p \<noteq> ''event='' \<and> take 7 p \<noteq> ''search='') ps"
  proof -
    have "set ps = set [''since_id=5'', ''until_id=10'', ''limit=3'', ''tags=a,b'', ''tag_mode=and'']"
      using five by (rule mset_eq_setD)
    then show ?thesis by (simp add: list_all_iff)
  qed
  ultimately show ?thesis by blast
qed

theorem List_query_witness:
  "snd (List (addOptions_model rev MessagesListOptions_values) sample_NewRequest sample_Do
       ''org'' ''main'' list_options) =
     [addOptions_call ''flows/org/main/messages'',
      NewRequest_call ''GET'' ''flows/org/main/messages?tag_mode=and&tags=a,b&until_id=10&since_id=5&limit=3'',
      Do_call (''GET'', ''flows/org/main/messages?tag_mode=and&tags=a,b&until_id=10&since_id=5&limit=3'')]
   \<and> (\<exists>ps. take 2 (snd (List (addOptions_model rev MessagesListOptions_values) sample_NewRequest sample_Do
             ''org'' ''main'' list_options)) =
           [addOptions_call (''flows/'' @ ''org'' @ ''/'' @ ''main'' @ ''/messages''),
            NewRequest_call ''GET'' (''flows/'' @ ''org'' @ ''/'' @ ''main'' @ ''/messages?'' @ join ''&'' ps)]
         \<and> mset ps = mset [''since_id=5'', ''until_id=10'', ''limit=3'', ''tags=a,b'', ''tag_mode=and'']
         \<and> list_all (\<lambda>p. take 6 p \<noteq> ''event='' \<and> take 7 p \<noteq> ''search='') ps)"
proof -
  have "snd (List (addOptions_model rev MessagesListOptions_values) sample_NewRequest sample_Do
       ''org'' ''main'' list_options) =
     [addOptions_call ''flows/org/main/messages'',
      NewRequest_call ''GET'' ''flows/org/main/messages?tag_mode=and&tags=a,b&until_id=10&since_id=5&limit=3'',
      Do_call (''GET'', ''flows/org/main/messages?tag_mode=and&tags=a,b&until_id=10&since_id=5&limit=3'')]"
    by (simp add: List_def addOptions_model_def list_options_values parameter_def
        sample_NewRequest_def sample_Do_def)
  moreover have "\<And>kvs :: (string \<times> string) list. mset (rev kvs) = mset kvs" by simp
  note List_query [of rev sample_NewRequest sample_Do "''org''" "''main''", OF this]
  ultimately show ?thesis by blast
qed

text \<open>
  C8: for a \<^verbatim>\<open>Create\<close> call with the options \<^const>\<open>create_options\<close>, which set only the
  content and the subject, the request is a POST to \<^verbatim>\<open>messages\<close> whose parameters are
  exactly these two; when the response has a 2xx status and the body \<^verbatim>\<open>{}\<close>, which
  \<^verbatim>\<open>json.Unmarshal\<close> decodes without setting a field, the call returns the response, a
  Message with every field absent and no error.
\<close>

theorem Create_content_subject:
  assumes "\<And>kvs. mset (arrange kvs) = mset kvs"
    and "NewRequest ''POST''
      (fst (addOptions_model arrange MessagesCreateOptions_values ''messages'' create_options)) = Inr req"
    and "transport req = Inr resp" and "200 \<le> StatusCode resp" and "StatusCode resp \<le> 299"
    and "Body resp = ''{}''"
    and "json_Unmarshal ''{}'' new_Message = Inr new_Message"
  shows "\<exists>ps. Create (addOptions_model arrange MessagesCreateOptions_values) NewRequest
           (Do_model transport json_Unmarshal) create_options =
           ((Some new_Message, Some resp, None),
            [addOptions_call ''messages'', NewRequest_call ''POST'' (''messages?'' @ join ''&'' ps),
             Do_call req])
         \<and> mset ps = mset [''content=Howdy-Doo @Jackie #awesome'', ''subject=a subject'']"
proof -
  have "mset (arrange (MessagesCreateOptions_values create_options)) =
      mset [(''content'', ''Howdy-Doo @Jackie #awesome''), (''subject'', ''a subject'')]"
    using assms(1) by (simp add: create_options_values)
  from addOptions_model_parameters [where arrange = arrange and encode = MessagesCreateOptions_values
      and opt = create_options and s = "''messages''", OF this]
  obtain ps where a: "addOptions_model arrange MessagesCreateOptions_values ''messages'' create_options =
        (''messages'' @ ''?'' @ join ''&'' ps, None)"
    and ps: "mset ps = mset (map parameter
        [(''content'', ''Howdy-Doo @Jackie #awesome''), (''subject'', ''a subject'')])"
    by auto
  have req: "NewRequest ''POST'' (''messages?'' @ join ''&'' ps) = Inr req"
    using assms(2) a by simp
  have do: "Do_model transport json_Unmarshal req new_Message = (Some resp, None, new_Message)"
    using assms(3-7) by (simp add: Do_model_def)
  have "Create (addOptions_model arrange MessagesCreateOptions_values) NewRequest
           (Do_model transport json_Unmarshal) create_options =
           ((Some new_Message, Some resp, None),
            [addOptions_call ''messages'', NewRequest_call ''POST'' (''messages?'' @ join ''&'' ps),
             Do_call req])"
    unfolding Create_def using a req do by simp
  moreover have "mset ps = mset [''content=Howdy-Doo @Jackie #awesome'', ''subject=a subject'']"
    unfolding ps by (simp add: parameter_def)
  ultimately show ?thesis by blast
qed

theorem Create_content_subject_witness:
  "Create (addOptions_model rev MessagesCreateOptions_values) sample_NewRequest
           (Do_model sample_transport sample_Unmarshal_Message) create_options =
     ((Some new_Message, Some \<lparr>StatusCode = 200, Body = ''{}''\<rparr>, None),
      [addOptions_call ''messages'',
       NewRequest_call ''POST'' ''messages?subject=a subject&content=Howdy-Doo @Jackie #awesome'',
       Do_call (''POST'', ''messages?subject=a subject&content=Howdy-Doo @Jackie #awesome'')])"
proof -
  have perm: "\<And>kvs :: (string \<times> string) list. mset (rev kvs) = mset kvs" by simp
  have u: "addOptions_model rev MessagesCreateOptions_values ''messages'' create_options =
      (''messages?subject=a subject&content=Howdy-Doo @Jackie #awesome'', None)"
    by (simp add: addOptions_model_def create_options_values parameter_def)
  have nr: "sample_NewRequest ''POST''
      (fst (addOptions_model rev MessagesCreateOptions_values ''messages'' create_options)) =
      Inr (''POST'', ''messages?subject=a subject&content=Howdy-Doo @Jackie #awesome'')"
    unfolding u by (simp add: sample_NewRequest_def)
  have tr: "sample_transport (''POST'', ''messages?subject=a subject&content=Howdy-Doo @Jackie #awesome'') =
      Inr \<lparr>StatusCode = 200, Body = ''{}''\<rparr>"
    by (simp add: sample_transport_def)
  have un: "sample_Unmarshal_Message ''{}'' new_Message = Inr new_Message"
    by (simp add: sample_Unmarshal_Message_def)
  from Create_content_subject [of rev sample_NewRequest _ sample_transport _ sample_Unmarshal_Message,
      OF perm nr tr _ _ _ un]
  obtain ps where c: "Create (addOptions_model rev MessagesCreateOptions_values) sample_NewRequest
           (Do_model sample_transport sample_Unmarshal_Message) create_options =
           ((Some new_Message, Some \<lparr>StatusCode = 200, Body = ''{}''\<rparr>, None),
            [addOptions_call ''messages'', NewRequest_call ''POST'' (''messages?'' @ join ''&'' ps),
             Do_call (''POST'', ''messages?subject=a subject&content=Howdy-Doo @Jackie #awesome'')])"
    by auto
  have "snd (Create (addOptions_model rev MessagesCreateOptions_values) sample_NewRequest
           (Do_model sample_transport sample_Unmarshal_Message) create_options) ! 1 =
      NewRequest_call ''POST'' ''messages?subject=a subject&content=Howdy-Doo @Jackie #awesome''"
    unfolding Create_def using u by (simp add: sample_NewRequest_def Do_model_def sample_transport_def sample_Unmarshal_Message_def)
  with c show ?thesis by simp
qed

end
